theory Spec2Isabelle
  imports Main "HOL-Library.Sublist"
begin

section \<open>The CSV loader \<^verbatim>\<open>Dataset/database_upload.py\<close>\<close>

text \<open>
  The script is a straight line of library calls: \<^verbatim>\<open>load_dotenv\<close>, two
  \<^verbatim>\<open>pd.read_csv\<close>, five \<^verbatim>\<open>os.getenv\<close>, an f-string, \<^verbatim>\<open>create_engine\<close>, two
  \<^verbatim>\<open>DataFrame.to_sql\<close> and a \<^verbatim>\<open>print\<close>. The embedding threads one explicit state
  (process environment, database tables, standard output, and the sequence of library
  calls made so far) through these calls. An exception is a value \<open>Inl e\<close>; the state
  reached when it is raised is kept, since what was committed before stays committed.

  What the script cannot decide (what is in the \<^verbatim>\<open>.env\<close> file and in the two CSV files,
  whether the engine constructor, the server or the standard output rejects something) is
  a field of the record \<open>host\<close>, so that every theorem holds for all such surroundings.
  Every call that can raise in the libraries can raise in the model.
\<close>

subsection \<open>Data\<close>

text \<open>A cell of a parsed file. The loader never inspects cells.\<close>

datatype cell = CInt int | CStr string | CNull

text \<open>
  A pandas DataFrame read by \<^verbatim>\<open>pd.read_csv(path)\<close>: the header names and the data rows.
  Its index is the default one, the row positions \<open>0, 1, 2, \<dots>\<close>.
\<close>

record dataframe =
  columns :: "string list"
  body :: "cell list list"

text \<open>A stored row of a database table: column name and value.\<close>

type_synonym db_row = "(string \<times> cell) list"

text \<open>The exceptions that can end the run, by their Python class.\<close>

datatype error =
    FileNotFoundError | PermissionError | ParserError | EmptyDataError
  | UnicodeDecodeError | UnicodeEncodeError | OSError
  | ArgumentError | ModuleNotFoundError | OperationalError | ProgrammingError
  | IntegrityError | DataError | ValueError

text \<open>
  What is at a path, as \<^verbatim>\<open>pd.read_csv\<close> meets it. \<open>Raises e\<close>: reading raises \<open>e\<close> before
  any record is looked at (no such file, no permission, bytes that do not decode, nothing
  to parse, a quote that never closes). \<open>Records names recs\<close>: the file splits into a
  header line and data records; \<open>names\<close> are the column labels pandas takes from the
  header, and each record is the list of its fields, as many as the line has, as pandas
  converts them.
\<close>

datatype csv_file = Raises error | Records "string list" "cell list list"

text \<open>The values of the \<^verbatim>\<open>if_exists\<close> argument of \<^verbatim>\<open>to_sql\<close>.\<close>

datatype if_exists = Fail | Replace | Append

text \<open>What \<^verbatim>\<open>create_engine\<close> returns: a handle that remembers its URL. No connection is
  opened until the handle is first used.\<close>

datatype engine = Engine (url: string)

text \<open>One entry per library call, appended when the call is made.\<close>

datatype event =
    LoadDotenv
  | ReadCsv string
  | Getenv string
  | CreateEngine string
  | ToSql string
  | Print string

record host =
  load_dotenv_error :: "error option"
    \<comment> \<open>the exception \<^verbatim>\<open>load_dotenv\<close> raises on the \<^verbatim>\<open>.env\<close> file (unreadable, not
        decodable), if any\<close>
  dotenv_file :: "string \<rightharpoonup> string"
    \<comment> \<open>the key/value pairs \<^verbatim>\<open>load_dotenv\<close> gets from the \<^verbatim>\<open>.env\<close> file in this run, with
        \<^verbatim>\<open>${NAME}\<close> references already expanded; empty when there is no file\<close>
  file_at :: "string \<Rightarrow> csv_file"
    \<comment> \<open>what is at a path\<close>
  long_record_result :: "string list \<Rightarrow> cell list list \<Rightarrow> error + dataframe"
    \<comment> \<open>what \<^verbatim>\<open>pd.read_csv\<close> makes of a file with a record that has more fields than the
        header: \<^verbatim>\<open>ParserError\<close>, or a table whose row labels are the leading fields\<close>
  create_engine_error :: "string \<Rightarrow> error option"
    \<comment> \<open>the exception \<^verbatim>\<open>create_engine\<close> raises for a URL, if any\<close>
  connect_error :: "string \<Rightarrow> error option"
    \<comment> \<open>the exception raised when a connection is opened for a URL, if any\<close>
  insert_error :: "string \<Rightarrow> dataframe \<Rightarrow> error option"
    \<comment> \<open>the exception the server raises while these rows are inserted into this table, if any\<close>
  print_error :: "string \<Rightarrow> error option"
    \<comment> \<open>the exception \<^verbatim>\<open>print\<close> raises for a line (the standard output cannot encode it,
        or cannot be written to), if any\<close>

record state =
  environ :: "string \<rightharpoonup> string"
  tables :: "string \<rightharpoonup> db_row list"
  stdout :: "string list"
  trace :: "event list"

type_synonym 'a action = "state \<Rightarrow> (error + 'a) \<times> state"

text \<open>Sequencing of two statements: an exception in the first skips the second.\<close>

definition and_then :: "'a action \<Rightarrow> ('a \<Rightarrow> 'b action) \<Rightarrow> 'b action" where
  "and_then m f s = (case m s of (Inl e, s') \<Rightarrow> (Inl e, s') | (Inr a, s') \<Rightarrow> f a s')"

definition log :: "event \<Rightarrow> state \<Rightarrow> state" where
  "log e s = s\<lparr>trace := trace s @ [e]\<rparr>"

subsection \<open>The library calls\<close>

text \<open>
  \<^verbatim>\<open>load_dotenv(override=False)\<close>: every key of the \<^verbatim>\<open>.env\<close> file is written to
  \<^verbatim>\<open>os.environ\<close>, except that with \<^verbatim>\<open>override=False\<close> (the default, which the script
  uses) a key already present in \<^verbatim>\<open>os.environ\<close> is skipped. A file that cannot be read
  raises, and nothing is written.
\<close>

definition load_dotenv :: "host \<Rightarrow> bool \<Rightarrow> unit action" where
  "load_dotenv h override s =
     (case load_dotenv_error h of
        Some e \<Rightarrow> (Inl e, log LoadDotenv s)
      | None \<Rightarrow>
          (Inr (),
           log LoadDotenv
             (s\<lparr>environ := (if override then environ s ++ dotenv_file h
                             else dotenv_file h ++ environ s)\<rparr>)))"

text \<open>
  \<^verbatim>\<open>pd.read_csv(path)\<close> with its defaults. A record with fewer fields than the header is
  not an error: its missing trailing fields are filled with the missing value. A record
  with more fields than the header is left to the surroundings.
\<close>

definition pad :: "nat \<Rightarrow> cell list \<Rightarrow> cell list" where
  "pad n r = r @ replicate (n - length r) CNull"

definition read_csv_result :: "host \<Rightarrow> string \<Rightarrow> error + dataframe" where
  "read_csv_result h path =
     (case file_at h path of
        Raises e \<Rightarrow> Inl e
      | Records names recs \<Rightarrow>
          if names = [] then Inl EmptyDataError
          else if list_ex (\<lambda>r. length names < length r) recs
            then long_record_result h names recs
          else Inr \<lparr>columns = names, body = map (pad (length names)) recs\<rparr>)"

definition read_csv :: "host \<Rightarrow> string \<Rightarrow> dataframe action" where
  "read_csv h path s = (read_csv_result h path, log (ReadCsv path) s)"

text \<open>\<^verbatim>\<open>os.getenv(key)\<close> is \<^verbatim>\<open>None\<close> for a key that is not set; it never raises.\<close>

definition getenv :: "string \<Rightarrow> string option action" where
  "getenv key s = (Inr (environ s key), log (Getenv key) s)"

text \<open>A replacement field \<^verbatim>\<open>{x}\<close> of an f-string is \<^verbatim>\<open>str(x)\<close>: the string itself, and
  the four letters \<^verbatim>\<open>None\<close> for \<^verbatim>\<open>None\<close>.\<close>

fun format_field :: "string option \<Rightarrow> string" where
  "format_field None = ''None''"
| "format_field (Some v) = v"

definition create_engine :: "host \<Rightarrow> string \<Rightarrow> engine action" where
  "create_engine h u s =
     (case create_engine_error h u of
        Some e \<Rightarrow> (Inl e, log (CreateEngine u) s)
      | None \<Rightarrow> (Inr (Engine u), log (CreateEngine u) s))"

text \<open>
  The rows \<^verbatim>\<open>to_sql\<close> sends: one per data row, pairing the header names with the cells;
  with \<^verbatim>\<open>index=True\<close> the row position is sent too, in a column named \<^verbatim>\<open>index\<close>.
\<close>

definition to_records :: "bool \<Rightarrow> dataframe \<Rightarrow> db_row list" where
  "to_records index df =
     map (\<lambda>(i, r). (if index then [(''index'', CInt (int i))] else []) @ zip (columns df) r)
         (enumerate 0 (body df))"

definition stored :: "state \<Rightarrow> string \<Rightarrow> db_row list" where
  "stored s name = (case tables s name of None \<Rightarrow> [] | Some rs \<Rightarrow> rs)"

text \<open>
  \<^verbatim>\<open>df.to_sql(name, engine, if_exists=\<dots>, index=\<dots>)\<close>: a connection is taken from the
  engine; \<^verbatim>\<open>fail\<close> raises \<^verbatim>\<open>ValueError\<close> when the table exists, \<^verbatim>\<open>replace\<close> drops it
  first, \<^verbatim>\<open>append\<close> keeps its rows (and creates the table when it is missing). The insert
  runs in a transaction of its own: an exception rolls it back, success commits it.
\<close>

definition to_sql :: "host \<Rightarrow> dataframe \<Rightarrow> string \<Rightarrow> engine \<Rightarrow> if_exists \<Rightarrow> bool \<Rightarrow> unit action" where
  "to_sql h df name eng mode index s =
     (let s' = log (ToSql name) s in
      case connect_error h (url eng) of
        Some e \<Rightarrow> (Inl e, s')
      | None \<Rightarrow>
          if mode = Fail \<and> tables s name \<noteq> None then (Inl ValueError, s')
          else
            (case insert_error h name df of
               Some e \<Rightarrow> (Inl e, s')
             | None \<Rightarrow>
                 (Inr (),
                  s'\<lparr>tables := (tables s)
                       (name \<mapsto> (if mode = Replace then [] else stored s name)
                                 @ to_records index df)\<rparr>)))"

text \<open>\<^verbatim>\<open>print(line)\<close>: the line is written, unless the standard output refuses it.\<close>

definition print :: "host \<Rightarrow> string \<Rightarrow> unit action" where
  "print h line s =
     (case print_error h line of
        Some e \<Rightarrow> (Inl e, log (Print line) s)
      | None \<Rightarrow> (Inr (), log (Print line) (s\<lparr>stdout := stdout s @ [line]\<rparr>)))"

subsection \<open>The script\<close>

text \<open>The text printed last: \<^verbatim>\<open>CSV upload complete\<close>, a space, and U+2705 in UTF-8.\<close>

definition upload_complete :: string where
  "upload_complete = ''CSV upload complete '' @ [CHR 0xE2, CHR 0x9C, CHR 0x85]"

definition db_url ::
  "string option \<Rightarrow> string option \<Rightarrow> string option \<Rightarrow> string option \<Rightarrow> string option \<Rightarrow> string"
where
  "db_url user password hst port database =
     ''postgresql://'' @ format_field user @ '':'' @ format_field password @ ''@''
       @ format_field hst @ '':'' @ format_field port @ ''/'' @ format_field database"

definition main :: "host \<Rightarrow> unit action" where
  "main h =
     and_then (load_dotenv h False) (\<lambda>_.
     and_then (read_csv h ''./users.csv'') (\<lambda>users_df.
     and_then (read_csv h ''./orders.csv'') (\<lambda>orders_df.
     and_then (getenv ''DB_USER'') (\<lambda>user.
     and_then (getenv ''DB_PASSWORD'') (\<lambda>password.
     and_then (getenv ''DB_HOST'') (\<lambda>hst.
     and_then (getenv ''DB_PORT'') (\<lambda>port.
     and_then (getenv ''DB_NAME'') (\<lambda>database.
     and_then (create_engine h (db_url user password hst port database)) (\<lambda>eng.
     and_then (to_sql h users_df ''users'' eng Append False) (\<lambda>_.
     and_then (to_sql h orders_df ''orders'' eng Append False) (\<lambda>_.
     print h upload_complete)))))))))))"


subsection \<open>Notions used to state the properties\<close>

text \<open>The connection string that \<open>main\<close> builds when it starts in state \<open>s\<close>.\<close>

definition loader_url :: "host \<Rightarrow> state \<Rightarrow> string" where
  "loader_url h s =
     (let env = dotenv_file h ++ environ s in
      db_url (env ''DB_USER'') (env ''DB_PASSWORD'') (env ''DB_HOST'') (env ''DB_PORT'')
        (env ''DB_NAME''))"

text \<open>The URLs the engine constructor was called with, in order.\<close>

fun created_urls :: "event list \<Rightarrow> string list" where
  "created_urls [] = []"
| "created_urls (CreateEngine u # es) = u # created_urls es"
| "created_urls (_ # es) = created_urls es"

text \<open>The calls of a run in which nothing raises before the last call.\<close>

definition schedule :: "string \<Rightarrow> event list" where
  "schedule u =
     [LoadDotenv, ReadCsv ''./users.csv'', ReadCsv ''./orders.csv'',
      Getenv ''DB_USER'', Getenv ''DB_PASSWORD'', Getenv ''DB_HOST'', Getenv ''DB_PORT'',
      Getenv ''DB_NAME'', CreateEngine u, ToSql ''users'', ToSql ''orders'',
      Print upload_complete]"

text \<open>The position of the first occurrence of an event.\<close>

fun position :: "event \<Rightarrow> event list \<Rightarrow> nat option" where
  "position e [] = None"
| "position e (x # xs) = (if x = e then Some 0 else map_option Suc (position e xs))"

text \<open>The first occurrence of \<open>a\<close> comes before the first occurrence of \<open>b\<close>.\<close>

definition precedes :: "event \<Rightarrow> event \<Rightarrow> event list \<Rightarrow> bool" where
  "precedes a b es =
     (case (position a es, position b es) of
        (Some i, Some j) \<Rightarrow> i < j
      | _ \<Rightarrow> False)"

text \<open>
  The value a variable is meant to have: the one of the process environment when the
  script starts, if there is one, and otherwise the one of the \<^verbatim>\<open>.env\<close> file.
\<close>

definition configured :: "host \<Rightarrow> state \<Rightarrow> string \<Rightarrow> string option" where
  "configured h s key = (case environ s key of Some v \<Rightarrow> Some v | None \<Rightarrow> dotenv_file h key)"

text \<open>A file in which some record has not as many fields as there are column labels.\<close>

definition inconsistent_columns :: "csv_file \<Rightarrow> bool" where
  "inconsistent_columns f =
     (case f of
        Raises _ \<Rightarrow> False
      | Records names recs \<Rightarrow> list_ex (\<lambda>r. length r \<noteq> length names) recs)"

text \<open>A concrete surrounding and starting state, used for the examples.\<close>

definition users_frame :: dataframe where
  "users_frame = \<lparr>columns = [''id'', ''name''],
                  body = [[CInt 1, CStr ''ann''], [CInt 2, CStr ''bob'']]\<rparr>"

definition orders_frame :: dataframe where
  "orders_frame = \<lparr>columns = [''id'', ''user_id''], body = [[CInt 7, CInt 1]]\<rparr>"

definition demo_files :: "string \<Rightarrow> csv_file" where
  "demo_files path =
     (if path = ''./users.csv''
        then Records [''id'', ''name''] [[CInt 1, CStr ''ann''], [CInt 2, CStr ''bob'']]
      else if path = ''./orders.csv''
        then Records [''id'', ''user_id''] [[CInt 7, CInt 1]]
      else Raises FileNotFoundError)"

definition demo_host :: host where
  "demo_host =
     \<lparr>load_dotenv_error = None,
      dotenv_file = [''DB_USER'' \<mapsto> ''app'', ''DB_PASSWORD'' \<mapsto> ''p@ss/w:rd'',
                     ''DB_HOST'' \<mapsto> ''localhost'', ''DB_PORT'' \<mapsto> ''5432'',
                     ''DB_NAME'' \<mapsto> ''shop''],
      file_at = demo_files,
      long_record_result = (\<lambda>_ _. Inl ParserError),
      create_engine_error = (\<lambda>_. None),
      connect_error = (\<lambda>_. None),
      insert_error = (\<lambda>_ _. None),
      print_error = (\<lambda>_. None)\<rparr>"

definition demo_state :: state where
  "demo_state =
     \<lparr>environ = [''DB_USER'' \<mapsto> ''root''],
      tables = [''users'' \<mapsto> [[(''id'', CInt 0), (''name'', CStr ''zed'')]], ''orders'' \<mapsto> []],
      stdout = [],
      trace = []\<rparr>"

text \<open>
  The same surrounding without \<^verbatim>\<open>DB_PASSWORD\<close>, and with a server that lets every
  connection in whatever password it is given.
\<close>

definition trusting_host :: host where
  "trusting_host =
     demo_host\<lparr>dotenv_file := [''DB_USER'' \<mapsto> ''app'', ''DB_HOST'' \<mapsto> ''localhost'',
                                ''DB_PORT'' \<mapsto> ''5432'', ''DB_NAME'' \<mapsto> ''shop'']\<rparr>"

text \<open>The same again, with a server that lets in the one right password only.\<close>

definition checking_host :: host where
  "checking_host =
     trusting_host\<lparr>connect_error :=
       (\<lambda>u. if u = ''postgresql://root:p@ss/w:rd@localhost:5432/shop'' then None
            else Some OperationalError)\<rparr>"

text \<open>A surrounding in which the server refuses the rows of the orders file.\<close>

definition orders_rejected_host :: host where
  "orders_rejected_host =
     demo_host\<lparr>insert_error := (\<lambda>name df. if name = ''orders'' then Some IntegrityError else None)\<rparr>"

text \<open>A surrounding in which the server refuses the rows of the users file.\<close>

definition users_rejected_host :: host where
  "users_rejected_host =
     demo_host\<lparr>insert_error := (\<lambda>name df. if name = ''users'' then Some DataError else None)\<rparr>"

text \<open>A surrounding in which the second record of the orders file has a field too many.\<close>

definition bad_orders_host :: host where
  "bad_orders_host =
     demo_host\<lparr>file_at :=
       (\<lambda>path. if path = ''./orders.csv''
                then Records [''id'', ''user_id''] [[CInt 7, CInt 1], [CInt 8, CInt 2, CInt 9]]
              else demo_files path)\<rparr>"

text \<open>A surrounding in which the second record of the users file has a field too few.\<close>

definition ragged_users_file :: csv_file where
  "ragged_users_file = Records [''id'', ''name''] [[CInt 1, CStr ''ann''], [CInt 2]]"

definition ragged_host :: host where
  "ragged_host =
     demo_host\<lparr>file_at :=
       (\<lambda>path. if path = ''./users.csv'' then ragged_users_file else demo_files path)\<rparr>"

text \<open>A surrounding whose standard output cannot encode the check mark.\<close>

definition plain_stdout_host :: host where
  "plain_stdout_host =
     demo_host\<lparr>print_error :=
       (\<lambda>line. if CHR 0xE2 \<in> set line then Some UnicodeEncodeError else None)\<rparr>"

section \<open>How a run ends\<close>

text \<open>
  One lemma for each place where the run can stop: the exception it stops with and the
  state it leaves. The calls made are always a beginning of \<open>schedule\<close>.
\<close>

lemmas op_defs = and_then_def load_dotenv_def read_csv_def getenv_def create_engine_def
  to_sql_def print_def log_def

lemma main_dotenv_raises:
  assumes "load_dotenv_error h = Some e"
  shows "main h s =
    (Inl e, s\<lparr>trace := trace s @ take 1 (schedule (loader_url h s))\<rparr>)"
  using assms by (simp add: main_def op_defs schedule_def loader_url_def Let_def stored_def)

lemma main_users_csv_raises:
  assumes "load_dotenv_error h = None"
    and "read_csv_result h ''./users.csv'' = Inl e"
  shows "main h s =
    (Inl e, s\<lparr>environ := dotenv_file h ++ environ s,
              trace := trace s @ take 2 (schedule (loader_url h s))\<rparr>)"
  using assms by (simp add: main_def op_defs schedule_def loader_url_def Let_def stored_def)

lemma main_orders_csv_raises:
  assumes "load_dotenv_error h = None"
    and "read_csv_result h ''./users.csv'' = Inr udf"
    and "read_csv_result h ''./orders.csv'' = Inl e"
  shows "main h s =
    (Inl e, s\<lparr>environ := dotenv_file h ++ environ s,
              trace := trace s @ take 3 (schedule (loader_url h s))\<rparr>)"
  using assms by (simp add: main_def op_defs schedule_def loader_url_def Let_def stored_def)

lemma main_engine_raises:
  assumes "load_dotenv_error h = None"
    and "read_csv_result h ''./users.csv'' = Inr udf"
    and "read_csv_result h ''./orders.csv'' = Inr odf"
    and "create_engine_error h (loader_url h s) = Some e"
  shows "main h s =
    (Inl e, s\<lparr>environ := dotenv_file h ++ environ s,
              trace := trace s @ take 9 (schedule (loader_url h s))\<rparr>)"
  using assms by (simp add: main_def op_defs schedule_def loader_url_def Let_def stored_def)

lemma main_connect_raises:
  assumes "load_dotenv_error h = None"
    and "read_csv_result h ''./users.csv'' = Inr udf"
    and "read_csv_result h ''./orders.csv'' = Inr odf"
    and "create_engine_error h (loader_url h s) = None"
    and "connect_error h (loader_url h s) = Some e"
  shows "main h s =
    (Inl e, s\<lparr>environ := dotenv_file h ++ environ s,
              trace := trace s @ take 10 (schedule (loader_url h s))\<rparr>)"
  using assms by (simp add: main_def op_defs schedule_def loader_url_def Let_def stored_def)

lemma main_users_insert_raises:
  assumes "load_dotenv_error h = None"
    and "read_csv_result h ''./users.csv'' = Inr udf"
    and "read_csv_result h ''./orders.csv'' = Inr odf"
    and "create_engine_error h (loader_url h s) = None"
    and "connect_error h (loader_url h s) = None"
    and "insert_error h ''users'' udf = Some e"
  shows "main h s =
    (Inl e, s\<lparr>environ := dotenv_file h ++ environ s,
              trace := trace s @ take 10 (schedule (loader_url h s))\<rparr>)"
  using assms by (simp add: main_def op_defs schedule_def loader_url_def Let_def stored_def)

lemma main_orders_insert_raises:
  assumes "load_dotenv_error h = None"
    and "read_csv_result h ''./users.csv'' = Inr udf"
    and "read_csv_result h ''./orders.csv'' = Inr odf"
    and "create_engine_error h (loader_url h s) = None"
    and "connect_error h (loader_url h s) = None"
    and "insert_error h ''users'' udf = None"
    and "insert_error h ''orders'' odf = Some e"
  shows "main h s =
    (Inl e, s\<lparr>environ := dotenv_file h ++ environ s,
              tables := (tables s)(''users'' \<mapsto> stored s ''users'' @ to_records False udf),
              trace := trace s @ take 11 (schedule (loader_url h s))\<rparr>)"
  using assms by (simp add: main_def op_defs schedule_def loader_url_def Let_def stored_def)

lemma main_print_raises:
  assumes "load_dotenv_error h = None"
    and "read_csv_result h ''./users.csv'' = Inr udf"
    and "read_csv_result h ''./orders.csv'' = Inr odf"
    and "create_engine_error h (loader_url h s) = None"
    and "connect_error h (loader_url h s) = None"
    and "insert_error h ''users'' udf = None"
    and "insert_error h ''orders'' odf = None"
    and "print_error h upload_complete = Some e"
  shows "main h s =
    (Inl e, s\<lparr>environ := dotenv_file h ++ environ s,
              tables := (tables s)(''users'' \<mapsto> stored s ''users'' @ to_records False udf,
                                   ''orders'' \<mapsto> stored s ''orders'' @ to_records False odf),
              trace := trace s @ schedule (loader_url h s)\<rparr>)"
  using assms by (simp add: main_def op_defs schedule_def loader_url_def Let_def stored_def)

lemma main_completes:
  assumes "load_dotenv_error h = None"
    and "read_csv_result h ''./users.csv'' = Inr udf"
    and "read_csv_result h ''./orders.csv'' = Inr odf"
    and "create_engine_error h (loader_url h s) = None"
    and "connect_error h (loader_url h s) = None"
    and "insert_error h ''users'' udf = None"
    and "insert_error h ''orders'' odf = None"
    and "print_error h upload_complete = None"
  shows "main h s =
    (Inr (), s\<lparr>environ := dotenv_file h ++ environ s,
              tables := (tables s)(''users'' \<mapsto> stored s ''users'' @ to_records False udf,
                                   ''orders'' \<mapsto> stored s ''orders'' @ to_records False odf),
              stdout := stdout s @ [upload_complete],
              trace := trace s @ schedule (loader_url h s)\<rparr>)"
  using assms by (simp add: main_def op_defs schedule_def loader_url_def Let_def stored_def)

text \<open>The nine ways a run can go, each with its result.\<close>

lemma main_cases [case_names dotenv users_csv orders_csv engine connect users_insert orders_insert printing completes]:
  obtains
    e where "load_dotenv_error h = Some e"
      "main h s =
         (Inl e, s\<lparr>trace := trace s @ take 1 (schedule (loader_url h s))\<rparr>)"
  | e where "load_dotenv_error h = None"
      "read_csv_result h ''./users.csv'' = Inl e"
      "main h s =
         (Inl e, s\<lparr>environ := dotenv_file h ++ environ s,
              trace := trace s @ take 2 (schedule (loader_url h s))\<rparr>)"
  | udf e where "load_dotenv_error h = None"
      "read_csv_result h ''./users.csv'' = Inr udf"
      "read_csv_result h ''./orders.csv'' = Inl e"
      "main h s =
         (Inl e, s\<lparr>environ := dotenv_file h ++ environ s,
              trace := trace s @ take 3 (schedule (loader_url h s))\<rparr>)"
  | udf odf e where "load_dotenv_error h = None"
      "read_csv_result h ''./users.csv'' = Inr udf"
      "read_csv_result h ''./orders.csv'' = Inr odf"
      "create_engine_error h (loader_url h s) = Some e"
      "main h s =
         (Inl e, s\<lparr>environ := dotenv_file h ++ environ s,
              trace := trace s @ take 9 (schedule (loader_url h s))\<rparr>)"
  | udf odf e where "load_dotenv_error h = None"
      "read_csv_result h ''./users.csv'' = Inr udf"
      "read_csv_result h ''./orders.csv'' = Inr odf"
      "create_engine_error h (loader_url h s) = None"
      "connect_error h (loader_url h s) = Some e"
      "main h s =
         (Inl e, s\<lparr>environ := dotenv_file h ++ environ s,
              trace := trace s @ take 10 (schedule (loader_url h s))\<rparr>)"
  | udf odf e where "load_dotenv_error h = None"
      "read_csv_result h ''./users.csv'' = Inr udf"
      "read_csv_result h ''./orders.csv'' = Inr odf"
      "create_engine_error h (loader_url h s) = None"
      "connect_error h (loader_url h s) = None"
      "insert_error h ''users'' udf = Some e"
      "main h s =
         (Inl e, s\<lparr>environ := dotenv_file h ++ environ s,
              trace := trace s @ take 10 (schedule (loader_url h s))\<rparr>)"
  | udf odf e where "load_dotenv_error h = None"
      "read_csv_result h ''./users.csv'' = Inr udf"
      "read_csv_result h ''./orders.csv'' = Inr odf"
      "create_engine_error h (loader_url h s) = None"
      "connect_error h (loader_url h s) = None"
      "insert_error h ''users'' udf = None"
      "insert_error h ''orders'' odf = Some e"
      "main h s =
         (Inl e, s\<lparr>environ := dotenv_file h ++ environ s,
              tables := (tables s)(''users'' \<mapsto> stored s ''users'' @ to_records False udf),
              trace := trace s @ take 11 (schedule (loader_url h s))\<rparr>)"
  | udf odf e where "load_dotenv_error h = None"
      "read_csv_result h ''./users.csv'' = Inr udf"
      "read_csv_result h ''./orders.csv'' = Inr odf"
      "create_engine_error h (loader_url h s) = None"
      "connect_error h (loader_url h s) = None"
      "insert_error h ''users'' udf = None"
      "insert_error h ''orders'' odf = None"
      "print_error h upload_complete = Some e"
      "main h s =
         (Inl e, s\<lparr>environ := dotenv_file h ++ environ s,
              tables := (tables s)(''users'' \<mapsto> stored s ''users'' @ to_records False udf,
                                   ''orders'' \<mapsto> stored s ''orders'' @ to_records False odf),
              trace := trace s @ schedule (loader_url h s)\<rparr>)"
  | udf odf where "load_dotenv_error h = None"
      "read_csv_result h ''./users.csv'' = Inr udf"
      "read_csv_result h ''./orders.csv'' = Inr odf"
      "create_engine_error h (loader_url h s) = None"
      "connect_error h (loader_url h s) = None"
      "insert_error h ''users'' udf = None"
      "insert_error h ''orders'' odf = None"
      "print_error h upload_complete = None"
      "main h s =
         (Inr (), s\<lparr>environ := dotenv_file h ++ environ s,
              tables := (tables s)(''users'' \<mapsto> stored s ''users'' @ to_records False udf,
                                   ''orders'' \<mapsto> stored s ''orders'' @ to_records False odf),
              stdout := stdout s @ [upload_complete],
              trace := trace s @ schedule (loader_url h s)\<rparr>)"
proof (cases "load_dotenv_error h")
  case (Some e)
  show ?thesis
    by (rule that(1) [OF Some main_dotenv_raises [OF Some]])
next
  case l: None
  show ?thesis
  proof (cases "read_csv_result h ''./users.csv''")
    case (Inl e)
    show ?thesis
      by (rule that(2) [OF l Inl main_users_csv_raises [OF l Inl]])
  next
    case u: (Inr udf)
    show ?thesis
    proof (cases "read_csv_result h ''./orders.csv''")
      case (Inl e)
      show ?thesis
        by (rule that(3) [OF l u Inl main_orders_csv_raises [OF l u Inl]])
    next
      case o: (Inr odf)
      show ?thesis
      proof (cases "create_engine_error h (loader_url h s)")
        case (Some e)
        show ?thesis
          by (rule that(4) [OF l u o Some main_engine_raises [OF l u o Some]])
      next
        case c: None
        show ?thesis
        proof (cases "connect_error h (loader_url h s)")
          case (Some e)
          show ?thesis
            by (rule that(5) [OF l u o c Some main_connect_raises [OF l u o c Some]])
        next
          case n: None
          show ?thesis
          proof (cases "insert_error h ''users'' udf")
            case (Some e)
            show ?thesis
              by (rule that(6) [OF l u o c n Some main_users_insert_raises [OF l u o c n Some]])
          next
            case i: None
            show ?thesis
            proof (cases "insert_error h ''orders'' odf")
              case (Some e)
              show ?thesis
                by (rule that(7) [OF l u o c n i Some
                      main_orders_insert_raises [OF l u o c n i Some]])
            next
              case j: None
              show ?thesis
              proof (cases "print_error h upload_complete")
                case (Some e)
                show ?thesis
                  by (rule that(8) [OF l u o c n i j Some
                        main_print_raises [OF l u o c n i j Some]])
              next
                case None
                show ?thesis
                  by (rule that(9) [OF l u o c n i j None
                        main_completes [OF l u o c n i j None]])
              qed
            qed
          qed
        qed
      qed
    qed
  qed
qed

lemma to_records_no_index: "to_records False df = map (zip (columns df)) (body df)"
proof -
  have "map (\<lambda>(i, r). zip c r) (enumerate n xs) = map (zip c) xs" for c :: "string list" and n
    and xs :: "cell list list"
    by (induction xs arbitrary: n) simp_all
  then show ?thesis by (simp add: to_records_def)
qed

lemma main_completes_tables:
  assumes run: "main h s = (Inr (), s')"
    and u: "read_csv_result h ''./users.csv'' = Inr udf"
    and o: "read_csv_result h ''./orders.csv'' = Inr odf"
  shows "tables s' = (tables s)(''users'' \<mapsto> stored s ''users'' @ to_records False udf,
                                ''orders'' \<mapsto> stored s ''orders'' @ to_records False odf)"
  using assms by (cases rule: main_cases [where h = h and s = s]) auto

text \<open>The engine is created once, with the URL built from the environment after
  \<^verbatim>\<open>load_dotenv\<close>.\<close>

lemma created_urls_append: "created_urls (xs @ ys) = created_urls xs @ created_urls ys"
  by (induction xs rule: created_urls.induct) simp_all

lemma main_creates_engine:
  assumes "load_dotenv_error h = None"
    and "read_csv_result h ''./users.csv'' = Inr udf"
    and "read_csv_result h ''./orders.csv'' = Inr odf"
  shows "created_urls (trace (snd (main h s))) = created_urls (trace s) @ [loader_url h s]"
  using assms
  by (cases rule: main_cases [where h = h and s = s])
     (simp_all add: created_urls_append schedule_def)


text \<open>How far a run gets.\<close>

lemma length_schedule: "length (schedule u) = 12"
  by (simp add: schedule_def)

lemma main_calls:
  "\<exists>k. 1 \<le> k \<and> trace (snd (main h s)) = trace s @ take k (schedule (loader_url h s))
       \<and> (fst (main h s) = Inr () \<longrightarrow> 12 \<le> k)"
proof (cases rule: main_cases [where h = h and s = s])
  case (dotenv e)
  then show ?thesis by (intro exI [of _ 1]) simp
next
  case (users_csv e)
  then show ?thesis by (intro exI [of _ 2]) simp
next
  case (orders_csv udf e)
  then show ?thesis by (intro exI [of _ 3]) simp
next
  case (engine udf odf e)
  then show ?thesis by (intro exI [of _ 9]) simp
next
  case (connect udf odf e)
  then show ?thesis by (intro exI [of _ 10]) simp
next
  case (users_insert udf odf e)
  then show ?thesis by (intro exI [of _ 10]) simp
next
  case (orders_insert udf odf e)
  then show ?thesis by (intro exI [of _ 11]) simp
next
  case (printing udf odf e)
  then show ?thesis by (intro exI [of _ 12]) (simp add: length_schedule)
next
  case (completes udf odf)
  then show ?thesis by (intro exI [of _ 12]) (simp add: length_schedule)
qed

subsection \<open>The example run\<close>

lemmas demo_defs = demo_host_def demo_state_def demo_files_def users_frame_def orders_frame_def
  trusting_host_def checking_host_def orders_rejected_host_def users_rejected_host_def
  bad_orders_host_def ragged_host_def ragged_users_file_def plain_stdout_host_def
  read_csv_result_def pad_def

lemma demo_url:
  "loader_url demo_host demo_state = ''postgresql://root:p@ss/w:rd@localhost:5432/shop''"
  by (simp add: loader_url_def db_url_def demo_defs)

lemma demo_run:
  "main demo_host demo_state =
     (Inr (),
      \<lparr>environ = dotenv_file demo_host ++ environ demo_state,
       tables = [''users'' \<mapsto> [[(''id'', CInt 0), (''name'', CStr ''zed'')],
                                 [(''id'', CInt 1), (''name'', CStr ''ann'')],
                                 [(''id'', CInt 2), (''name'', CStr ''bob'')]],
                 ''orders'' \<mapsto> [[(''id'', CInt 7), (''user_id'', CInt 1)]]],
       stdout = [upload_complete],
       trace = schedule ''postgresql://root:p@ss/w:rd@localhost:5432/shop''\<rparr>)"
proof -
  have "main demo_host demo_state =
    (Inr (),
     demo_state\<lparr>environ := dotenv_file demo_host ++ environ demo_state,
       tables := (tables demo_state)
         (''users'' \<mapsto> stored demo_state ''users'' @ to_records False users_frame,
          ''orders'' \<mapsto> stored demo_state ''orders'' @ to_records False orders_frame),
       stdout := stdout demo_state @ [upload_complete],
       trace := trace demo_state @ schedule (loader_url demo_host demo_state)\<rparr>)"
    by (rule main_completes) (simp_all add: demo_defs)
  then show ?thesis
    by (simp add: demo_url) (simp add: demo_defs to_records_no_index stored_def fun_upd_twist)
qed



text \<open>The run on the users file with the short record.\<close>

lemma ragged_run:
  "main ragged_host demo_state =
     (Inr (),
      \<lparr>environ = dotenv_file demo_host ++ environ demo_state,
       tables = [''users'' \<mapsto> [[(''id'', CInt 0), (''name'', CStr ''zed'')],
                                 [(''id'', CInt 1), (''name'', CStr ''ann'')],
                                 [(''id'', CInt 2), (''name'', CNull)]],
                 ''orders'' \<mapsto> [[(''id'', CInt 7), (''user_id'', CInt 1)]]],
       stdout = [upload_complete],
       trace = schedule ''postgresql://root:p@ss/w:rd@localhost:5432/shop''\<rparr>)"
proof -
  let ?udf = "\<lparr>columns = [''id'', ''name''], body = [[CInt 1, CStr ''ann''], [CInt 2, CNull]]\<rparr>"
  have url: "loader_url ragged_host demo_state = ''postgresql://root:p@ss/w:rd@localhost:5432/shop''"
    by (simp add: loader_url_def db_url_def demo_defs)
  have "main ragged_host demo_state =
    (Inr (),
     demo_state\<lparr>environ := dotenv_file ragged_host ++ environ demo_state,
       tables := (tables demo_state)
         (''users'' \<mapsto> stored demo_state ''users'' @ to_records False ?udf,
          ''orders'' \<mapsto> stored demo_state ''orders'' @ to_records False orders_frame),
       stdout := stdout demo_state @ [upload_complete],
       trace := trace demo_state @ schedule (loader_url ragged_host demo_state)\<rparr>)"
    by (rule main_completes) (simp_all add: demo_defs)
  then show ?thesis
    by (simp add: url) (simp add: demo_defs to_records_no_index stored_def fun_upd_twist)
qed


section \<open>Properties of the loader\<close>

text \<open>
  C1. When the run completes, the rows of the users file have been added after the rows
  the table \<^verbatim>\<open>users\<close> had, and the rows of the orders file after those of \<^verbatim>\<open>orders\<close>:
  the rows stored before are still there, unchanged and in place, each new row pairs the
  header names of its file with the cells of one data row (the row position is not a
  column), and each table has as many rows more as its file has data rows.
\<close>

theorem appends_all_rows:
  assumes "main h s = (Inr (), s')"
    and "read_csv_result h ''./users.csv'' = Inr udf"
    and "read_csv_result h ''./orders.csv'' = Inr odf"
  shows "tables s' ''users'' = Some (stored s ''users'' @ map (zip (columns udf)) (body udf))
       \<and> tables s' ''orders'' = Some (stored s ''orders'' @ map (zip (columns odf)) (body odf))
       \<and> take (length (stored s ''users'')) (stored s' ''users'') = stored s ''users''
       \<and> take (length (stored s ''orders'')) (stored s' ''orders'') = stored s ''orders''
       \<and> length (stored s' ''users'') = length (stored s ''users'') + length (body udf)
       \<and> length (stored s' ''orders'') = length (stored s ''orders'') + length (body odf)"
  using main_completes_tables [OF assms]
  by (simp add: to_records_no_index stored_def)

theorem appends_all_rows_witness:
  "tables (snd (main demo_host demo_state)) ''users'' =
     Some [[(''id'', CInt 0), (''name'', CStr ''zed'')],
           [(''id'', CInt 1), (''name'', CStr ''ann'')],
           [(''id'', CInt 2), (''name'', CStr ''bob'')]]
   \<and> tables (snd (main demo_host demo_state)) ''orders'' =
     Some [[(''id'', CInt 7), (''user_id'', CInt 1)]]
   \<and> length (stored (snd (main demo_host demo_state)) ''users'') = 1 + 2
   \<and> length (stored (snd (main demo_host demo_state)) ''orders'') = 0 + 1"
  using appends_all_rows [of demo_host demo_state "snd (main demo_host demo_state)"
      users_frame orders_frame]
  by (simp add: demo_run) (simp add: demo_defs stored_def)

text \<open>
  C2. Whatever the five values are, once \<^verbatim>\<open>load_dotenv\<close> has returned and both files
  have parsed, the URL the engine is created with is
  \<^verbatim>\<open>postgresql://\<close>, the user, a colon, the password, an at sign, the host, a colon, the
  port, a slash and the database name, each value character for character as
  \<^verbatim>\<open>os.getenv\<close> returned it: nothing is escaped, whatever the password contains.
\<close>

theorem connection_string_verbatim:
  assumes "read_csv_result h ''./users.csv'' = Inr udf"
    and "read_csv_result h ''./orders.csv'' = Inr odf"
    and "fst (load_dotenv h False s) = Inr ()"
    and "environ (snd (load_dotenv h False s)) ''DB_USER'' = Some u"
    and "environ (snd (load_dotenv h False s)) ''DB_PASSWORD'' = Some p"
    and "environ (snd (load_dotenv h False s)) ''DB_HOST'' = Some hst"
    and "environ (snd (load_dotenv h False s)) ''DB_PORT'' = Some port"
    and "environ (snd (load_dotenv h False s)) ''DB_NAME'' = Some d"
  shows "created_urls (trace (snd (main h s))) =
           created_urls (trace s)
             @ [''postgresql://'' @ u @ '':'' @ p @ ''@'' @ hst @ '':'' @ port @ ''/'' @ d]"
proof -
  from assms(3) have loaded: "load_dotenv_error h = None"
    by (simp add: load_dotenv_def split: option.splits)
  with assms(4-8) main_creates_engine [OF loaded assms(1,2), of s] show ?thesis
    by (simp add: load_dotenv_def log_def loader_url_def db_url_def)
qed

theorem connection_string_verbatim_witness:
  "created_urls (trace (snd (main demo_host demo_state))) =
     [''postgresql://root:p@ss/w:rd@localhost:5432/shop'']"
  using connection_string_verbatim [where h = demo_host and udf = users_frame
      and odf = orders_frame and s = demo_state and u = "''root''" and p = "''p@ss/w:rd''"
      and hst = "''localhost''" and port = "''5432''" and d = "''shop''"]
  by (simp add: load_dotenv_def log_def demo_defs)

text \<open>
  C3, as the code has it. The calls of every run are made in one fixed order, and a run
  that raises stops there: \<^verbatim>\<open>load_dotenv\<close> fills the process environment from the
  \<^verbatim>\<open>.env\<close> file, then the users file and the orders file are parsed, then \<^verbatim>\<open>DB_USER\<close>,
  \<^verbatim>\<open>DB_PASSWORD\<close>, \<^verbatim>\<open>DB_HOST\<close>, \<^verbatim>\<open>DB_PORT\<close> and \<^verbatim>\<open>DB_NAME\<close> are read, the engine is
  created from the connection string, the users rows and then the orders rows are
  appended, and the line is printed. A run that completes has made all of these calls.
  In particular, whenever one of the five variables is read, both files have been parsed
  before.
\<close>

theorem calls_follow_schedule:
  "prefix (trace (snd (main h s))) (trace s @ schedule (loader_url h s))
   \<and> (fst (main h s) = Inr ()
      \<longrightarrow> trace (snd (main h s)) = trace s @ schedule (loader_url h s))
   \<and> (key \<in> {''DB_USER'', ''DB_PASSWORD'', ''DB_HOST'', ''DB_PORT'', ''DB_NAME''}
        \<and> Getenv key \<in> set (drop (length (trace s)) (trace (snd (main h s))))
      \<longrightarrow> precedes (ReadCsv ''./users.csv'') (Getenv key)
            (drop (length (trace s)) (trace (snd (main h s))))
        \<and> precedes (ReadCsv ''./orders.csv'') (Getenv key)
            (drop (length (trace s)) (trace (snd (main h s)))))"
proof (intro conjI impI)
  let ?plan = "schedule (loader_url h s)"
  obtain k where made: "trace (snd (main h s)) = trace s @ take k ?plan"
    and whole: "fst (main h s) = Inr () \<longrightarrow> 12 \<le> k"
    using main_calls [of h s] by blast
  show "prefix (trace (snd (main h s))) (trace s @ ?plan)"
    by (simp add: made take_is_prefix)
  show "trace (snd (main h s)) = trace s @ ?plan" if "fst (main h s) = Inr ()"
    using that whole by (simp add: made length_schedule)
next
  assume read: "key \<in> {''DB_USER'', ''DB_PASSWORD'', ''DB_HOST'', ''DB_PORT'', ''DB_NAME''}
      \<and> Getenv key \<in> set (drop (length (trace s)) (trace (snd (main h s))))"
  then show "precedes (ReadCsv ''./users.csv'') (Getenv key)
      (drop (length (trace s)) (trace (snd (main h s))))"
    by (cases rule: main_cases [where h = h and s = s])
       (auto simp add: schedule_def precedes_def)
  from read show "precedes (ReadCsv ''./orders.csv'') (Getenv key)
      (drop (length (trace s)) (trace (snd (main h s))))"
    by (cases rule: main_cases [where h = h and s = s])
       (auto simp add: schedule_def precedes_def)
qed

text \<open>The example run makes the whole sequence.\<close>

theorem calls_follow_schedule_witness:
  "trace (snd (main demo_host demo_state)) =
     [LoadDotenv, ReadCsv ''./users.csv'', ReadCsv ''./orders.csv'',
      Getenv ''DB_USER'', Getenv ''DB_PASSWORD'', Getenv ''DB_HOST'', Getenv ''DB_PORT'',
      Getenv ''DB_NAME'', CreateEngine ''postgresql://root:p@ss/w:rd@localhost:5432/shop'',
      ToSql ''users'', ToSql ''orders'', Print upload_complete]
   \<and> precedes (ReadCsv ''./users.csv'') (Getenv ''DB_USER'')
        (trace (snd (main demo_host demo_state)))
   \<and> precedes (ReadCsv ''./orders.csv'') (Getenv ''DB_USER'')
        (trace (snd (main demo_host demo_state)))"
proof -
  have start: "trace demo_state = []"
    by (simp add: demo_state_def)
  have read: "Getenv ''DB_USER'' \<in> set (trace (snd (main demo_host demo_state)))"
    by (simp add: demo_run schedule_def)
  have completed: "fst (main demo_host demo_state) = Inr ()"
    by (simp add: demo_run)
  note run = calls_follow_schedule [where h = demo_host and s = demo_state
      and key = "''DB_USER''"]
  from run completed have "trace (snd (main demo_host demo_state)) =
      schedule ''postgresql://root:p@ss/w:rd@localhost:5432/shop''"
    by (simp add: start demo_url)
  moreover from run read
  have "precedes (ReadCsv ''./users.csv'') (Getenv ''DB_USER'')
          (trace (snd (main demo_host demo_state)))
      \<and> precedes (ReadCsv ''./orders.csv'') (Getenv ''DB_USER'')
          (trace (snd (main demo_host demo_state)))"
    by (simp add: start)
  ultimately show ?thesis
    by (simp add: schedule_def)
qed

text \<open>
  In the example run \<^verbatim>\<open>DB_USER\<close> is not read before the users file is parsed; it is
  read after the orders file is.
\<close>

theorem env_read_first_counterexample:
  "\<not> precedes (Getenv ''DB_USER'') (ReadCsv ''./users.csv'')
        (trace (snd (main demo_host demo_state)))
   \<and> precedes (ReadCsv ''./orders.csv'') (Getenv ''DB_USER'')
        (trace (snd (main demo_host demo_state)))"
  by (simp add: demo_run schedule_def precedes_def)




text \<open>
  C5. When the insert into \<^verbatim>\<open>users\<close> succeeds and the insert into \<^verbatim>\<open>orders\<close> raises, the
  run ends with that exception, the users rows are in the table, and \<^verbatim>\<open>orders\<close> is as it
  was: nothing takes the users rows back.
\<close>

theorem users_rows_stay_committed:
  assumes "load_dotenv_error h = None"
    and "read_csv_result h ''./users.csv'' = Inr udf"
    and "read_csv_result h ''./orders.csv'' = Inr odf"
    and "create_engine_error h (loader_url h s) = None"
    and "connect_error h (loader_url h s) = None"
    and "insert_error h ''users'' udf = None"
    and "insert_error h ''orders'' odf = Some e"
  shows "fst (main h s) = Inl e
    \<and> tables (snd (main h s)) ''users'' =
        Some (stored s ''users'' @ map (zip (columns udf)) (body udf))
    \<and> tables (snd (main h s)) ''orders'' = tables s ''orders''"
  using main_orders_insert_raises [OF assms]
  by (simp add: to_records_no_index)

theorem users_rows_stay_committed_witness:
  "fst (main orders_rejected_host demo_state) = Inl IntegrityError
   \<and> tables (snd (main orders_rejected_host demo_state)) ''users'' =
       Some [[(''id'', CInt 0), (''name'', CStr ''zed'')],
             [(''id'', CInt 1), (''name'', CStr ''ann'')],
             [(''id'', CInt 2), (''name'', CStr ''bob'')]]
   \<and> tables (snd (main orders_rejected_host demo_state)) ''orders'' = Some []"
  using users_rows_stay_committed [where h = orders_rejected_host and s = demo_state
      and udf = users_frame and odf = orders_frame and e = IntegrityError]
  by (simp add: demo_defs stored_def)

text \<open>
  C6, as the code has it. When \<^verbatim>\<open>pd.read_csv\<close> raises for the users file or for the
  orders file (the file is missing or unreadable, or malformed in a way the parser
  rejects), the run fails and the tables and the standard output are as they were; if
  the run got as far as parsing, it ends with the exception of the first file that
  failed, and that call is the last one made. The loader has no check of its own: a file
  whose records have fewer fields than its header is not rejected, the missing fields
  are filled in, and the run goes on to write.
\<close>

theorem parse_failure_writes_nothing:
  assumes "isl (read_csv_result h ''./users.csv'') \<or> isl (read_csv_result h ''./orders.csv'')"
  shows "isl (fst (main h s))
    \<and> tables (snd (main h s)) = tables s
    \<and> stdout (snd (main h s)) = stdout s
    \<and> (load_dotenv_error h = None
       \<longrightarrow> fst (main h s) =
             Inl (projl (if isl (read_csv_result h ''./users.csv'')
                         then read_csv_result h ''./users.csv''
                         else read_csv_result h ''./orders.csv''))
         \<and> last (trace (snd (main h s))) =
             ReadCsv (if isl (read_csv_result h ''./users.csv'') then ''./users.csv''
                      else ''./orders.csv''))"
  using assms
  by (cases rule: main_cases [where h = h and s = s]) (simp_all add: schedule_def)

theorem parse_failure_writes_nothing_witness:
  "fst (main bad_orders_host demo_state) = Inl ParserError
   \<and> last (trace (snd (main bad_orders_host demo_state))) = ReadCsv ''./orders.csv''
   \<and> tables (snd (main bad_orders_host demo_state)) = tables demo_state"
  using parse_failure_writes_nothing [of bad_orders_host demo_state]
  by (simp add: demo_defs)

text \<open>
  The second record of the users file has one field where the header has two. The file
  parses, the run completes, and the short record is stored with the missing value.
\<close>

theorem malformed_file_counterexample:
  "inconsistent_columns (file_at ragged_host ''./users.csv'')
   \<and> fst (main ragged_host demo_state) = Inr ()
   \<and> tables (snd (main ragged_host demo_state)) ''users'' =
       Some [[(''id'', CInt 0), (''name'', CStr ''zed'')],
             [(''id'', CInt 1), (''name'', CStr ''ann'')],
             [(''id'', CInt 2), (''name'', CNull)]]
   \<and> tables (snd (main ragged_host demo_state)) \<noteq> tables demo_state"
proof -
  have "tables (snd (main ragged_host demo_state)) ''users'' \<noteq> tables demo_state ''users''"
    by (simp add: ragged_run) (simp add: demo_state_def)
  then have "tables (snd (main ragged_host demo_state)) \<noteq> tables demo_state"
    by metis
  moreover have "inconsistent_columns (file_at ragged_host ''./users.csv'')"
    by (simp add: inconsistent_columns_def ragged_host_def ragged_users_file_def)
  ultimately show ?thesis
    by (simp add: ragged_run)
qed

text \<open>
  C7. Two completed runs over the same files, the second starting from the tables the
  first one left: each table then holds the rows it had before the first run, followed by
  the rows of its file twice, so it has gained twice the row count of the file.
\<close>

theorem second_run_appends_again:
  assumes "main h s = (Inr (), mid)"
    and "main h' mid' = (Inr (), fin)"
    and "tables mid' = tables mid"
    and "read_csv_result h' = read_csv_result h"
    and "read_csv_result h ''./users.csv'' = Inr udf"
    and "read_csv_result h ''./orders.csv'' = Inr odf"
  shows "stored fin ''users'' =
           stored s ''users'' @ map (zip (columns udf)) (body udf)
             @ map (zip (columns udf)) (body udf)
    \<and> stored fin ''orders'' =
           stored s ''orders'' @ map (zip (columns odf)) (body odf)
             @ map (zip (columns odf)) (body odf)
    \<and> length (stored fin ''users'') = length (stored s ''users'') + 2 * length (body udf)
    \<and> length (stored fin ''orders'') = length (stored s ''orders'') + 2 * length (body odf)"
proof -
  have first: "tables mid = (tables s)
      (''users'' \<mapsto> stored s ''users'' @ to_records False udf,
       ''orders'' \<mapsto> stored s ''orders'' @ to_records False odf)"
    by (rule main_completes_tables [OF assms(1,5,6)])
  have second: "tables fin = (tables mid')
      (''users'' \<mapsto> stored mid' ''users'' @ to_records False udf,
       ''orders'' \<mapsto> stored mid' ''orders'' @ to_records False odf)"
    using assms(4,5,6) by (intro main_completes_tables [OF assms(2)]) simp_all
  have "stored mid' name = stored mid name" for name
    using assms(3) by (simp add: stored_def)
  with first second show ?thesis
    by (simp add: stored_def to_records_no_index)
qed

theorem second_run_appends_again_witness:
  "length (stored (snd (main demo_host (snd (main demo_host demo_state)))) ''users'') = 1 + 2 * 2
   \<and> length (stored (snd (main demo_host (snd (main demo_host demo_state)))) ''orders'') = 0 + 2 * 1"
proof -
  have again: "fst (main demo_host (snd (main demo_host demo_state))) = Inr ()"
    by (cases rule: main_cases [where h = demo_host and s = "snd (main demo_host demo_state)"])
       (simp_all add: demo_defs)
  have "main demo_host (snd (main demo_host demo_state)) =
          (Inr (), snd (main demo_host (snd (main demo_host demo_state))))"
    using again by (simp add: prod_eq_iff)
  from second_run_appends_again [OF _ this, where h = demo_host and s = demo_state
      and udf = users_frame and odf = orders_frame and mid = "snd (main demo_host demo_state)"]
  show ?thesis
    by (simp add: demo_run) (simp add: demo_defs stored_def)
qed




text \<open>
  C9. In a run that builds the connection string, for each of the five variables the
  value that goes into it is
  the one the process environment had when the script started, if it had one, and the one
  of the \<^verbatim>\<open>.env\<close> file only otherwise.
\<close>

theorem process_environment_wins:
  assumes "load_dotenv_error h = None"
    and "read_csv_result h ''./users.csv'' = Inr udf"
    and "read_csv_result h ''./orders.csv'' = Inr odf"
  shows "created_urls (trace (snd (main h s))) =
           created_urls (trace s)
             @ [db_url (configured h s ''DB_USER'') (configured h s ''DB_PASSWORD'')
                  (configured h s ''DB_HOST'') (configured h s ''DB_PORT'')
                  (configured h s ''DB_NAME'')]"
proof -
  have "(dotenv_file h ++ environ s) key = configured h s key" for key
    by (simp add: configured_def map_add_def split: option.split)
  with main_creates_engine [OF assms] show ?thesis
    by (simp add: loader_url_def Let_def)
qed

theorem process_environment_wins_witness:
  "environ demo_state ''DB_USER'' = Some ''root''
   \<and> dotenv_file demo_host ''DB_USER'' = Some ''app''
   \<and> environ demo_state ''DB_NAME'' = None
   \<and> dotenv_file demo_host ''DB_NAME'' = Some ''shop''
   \<and> created_urls (trace (snd (main demo_host demo_state))) =
       [''postgresql://root:p@ss/w:rd@localhost:5432/shop'']"
  using process_environment_wins [where h = demo_host and s = demo_state
      and udf = users_frame and odf = orders_frame]
  by (simp add: demo_defs configured_def db_url_def)

text \<open>
  C10. If the insert into \<^verbatim>\<open>orders\<close> is attempted at all, the insert into \<^verbatim>\<open>users\<close> was
  attempted before it and completed: the connection was opened, the server took the
  rows, and they are in the table. If the insert into \<^verbatim>\<open>users\<close> raises, the run fails, the
  insert into \<^verbatim>\<open>orders\<close> is never attempted and no table has changed.
\<close>

theorem users_insert_first:
  "(ToSql ''orders'' \<in> set (drop (length (trace s)) (trace (snd (main h s))))
    \<longrightarrow> precedes (ToSql ''users'') (ToSql ''orders'')
          (drop (length (trace s)) (trace (snd (main h s))))
        \<and> connect_error h (loader_url h s) = None
        \<and> (read_csv_result h ''./users.csv'' = Inr udf
           \<longrightarrow> insert_error h ''users'' udf = None
               \<and> tables (snd (main h s)) ''users'' =
                   Some (stored s ''users'' @ map (zip (columns udf)) (body udf))))
   \<and> (read_csv_result h ''./users.csv'' = Inr udf \<and> read_csv_result h ''./orders.csv'' = Inr odf
      \<and> create_engine_error h (loader_url h s) = None
      \<and> (connect_error h (loader_url h s) \<noteq> None \<or> insert_error h ''users'' udf \<noteq> None)
    \<longrightarrow> isl (fst (main h s))
        \<and> ToSql ''orders'' \<notin> set (drop (length (trace s)) (trace (snd (main h s))))
        \<and> tables (snd (main h s)) = tables s)"
proof (intro conjI impI)
  assume att: "ToSql ''orders'' \<in> set (drop (length (trace s)) (trace (snd (main h s))))"
  then show "precedes (ToSql ''users'') (ToSql ''orders'')
      (drop (length (trace s)) (trace (snd (main h s))))"
    by (cases rule: main_cases [where h = h and s = s])
       (simp_all add: schedule_def precedes_def)
  from att show "connect_error h (loader_url h s) = None"
    by (cases rule: main_cases [where h = h and s = s]) (simp_all add: schedule_def)
  assume "read_csv_result h ''./users.csv'' = Inr udf"
  with att show "insert_error h ''users'' udf = None"
    by (cases rule: main_cases [where h = h and s = s]) (simp_all add: schedule_def)
  from att \<open>read_csv_result h ''./users.csv'' = Inr udf\<close>
  show "tables (snd (main h s)) ''users'' =
      Some (stored s ''users'' @ map (zip (columns udf)) (body udf))"
    by (cases rule: main_cases [where h = h and s = s])
       (simp_all add: schedule_def to_records_no_index)
next
  assume r: "read_csv_result h ''./users.csv'' = Inr udf
      \<and> read_csv_result h ''./orders.csv'' = Inr odf
      \<and> create_engine_error h (loader_url h s) = None
      \<and> (connect_error h (loader_url h s) \<noteq> None \<or> insert_error h ''users'' udf \<noteq> None)"
  then show "isl (fst (main h s))"
    by (cases rule: main_cases [where h = h and s = s]) auto
  from r show "ToSql ''orders'' \<notin> set (drop (length (trace s)) (trace (snd (main h s))))"
    by (cases rule: main_cases [where h = h and s = s]) (auto simp add: schedule_def)
  from r show "tables (snd (main h s)) = tables s"
    by (cases rule: main_cases [where h = h and s = s]) auto
qed

theorem users_insert_first_witness:
  "ToSql ''orders'' \<in> set (trace (snd (main demo_host demo_state)))
   \<and> precedes (ToSql ''users'') (ToSql ''orders'') (trace (snd (main demo_host demo_state)))
   \<and> isl (fst (main users_rejected_host demo_state))
   \<and> ToSql ''orders'' \<notin> set (trace (snd (main users_rejected_host demo_state)))
   \<and> tables (snd (main users_rejected_host demo_state)) = tables demo_state"
proof -
  have start: "trace demo_state = []"
    by (simp add: demo_state_def)
  have attempted: "ToSql ''orders'' \<in> set (trace (snd (main demo_host demo_state)))"
    by (simp add: demo_run schedule_def)
  have raised: "read_csv_result users_rejected_host ''./users.csv'' = Inr users_frame
      \<and> read_csv_result users_rejected_host ''./orders.csv'' = Inr orders_frame
      \<and> create_engine_error users_rejected_host (loader_url users_rejected_host demo_state) = None
      \<and> (connect_error users_rejected_host (loader_url users_rejected_host demo_state) \<noteq> None
          \<or> insert_error users_rejected_host ''users'' users_frame \<noteq> None)"
    by (simp add: demo_defs)
  have "precedes (ToSql ''users'') (ToSql ''orders'') (trace (snd (main demo_host demo_state)))"
    using users_insert_first [where h = demo_host and s = demo_state and udf = users_frame
        and odf = orders_frame, THEN conjunct1] attempted
    by (simp add: start)
  moreover have "isl (fst (main users_rejected_host demo_state))
      \<and> ToSql ''orders'' \<notin> set (trace (snd (main users_rejected_host demo_state)))
      \<and> tables (snd (main users_rejected_host demo_state)) = tables demo_state"
    using users_insert_first [where h = users_rejected_host and s = demo_state
        and udf = users_frame and odf = orders_frame, THEN conjunct2, THEN mp, OF raised]
    by (simp add: start)
  ultimately show ?thesis
    using attempted by simp
qed

end
